theory Spec2Isabelle
  imports Main "HOL-Library.Char_ord" "HOL-Library.List_Lexorder"
begin

section \<open>The users table\<close>

text \<open>
  \<^verbatim>\<open>init_db\<close> creates one table, \<^verbatim>\<open>users(user_id INTEGER PRIMARY KEY,
  uses_left INTEGER DEFAULT 10, last_active TEXT)\<close>. A row is a record, the table is the
  list of its rows. \<^verbatim>\<open>last_active\<close> holds \<^verbatim>\<open>datetime.utcnow().isoformat()\<close>,
  a string; the clock is an input of the model (\<open>now\<close>). The order of the list stands
  for the order in which a \<^verbatim>\<open>SELECT\<close> without \<^verbatim>\<open>ORDER BY\<close> returns the rows, which
  SQL leaves open: an insert puts the new row last, and no property below depends on it.
\<close>

record user_row =
  user_id :: int
  uses_left :: int
  last_active :: string

type_synonym users_table = "user_row list"

definition FREE_USES_LIMIT :: int where
  "FREE_USES_LIMIT = 10"

text \<open>\<^verbatim>\<open>SELECT ... FROM users WHERE user_id = ?\<close> followed by \<^verbatim>\<open>fetchone()\<close>.\<close>

definition fetch_user :: "users_table \<Rightarrow> int \<Rightarrow> user_row option" where
  "fetch_user db uid = List.find (\<lambda>r. user_id r = uid) db"

definition select_uses_left :: "users_table \<Rightarrow> int \<Rightarrow> int option" where
  "select_uses_left db uid = map_option uses_left (fetch_user db uid)"

text \<open>The rows an \<^verbatim>\<open>UPDATE ... WHERE user_id = ?\<close> touches (\<^verbatim>\<open>cursor.rowcount\<close>).\<close>

definition rowcount :: "users_table \<Rightarrow> int \<Rightarrow> nat" where
  "rowcount db uid = length (filter (\<lambda>r. user_id r = uid) db)"

text \<open>
  The integers that can be bound to a parameter of a statement: those of 64 bits. Binding
  another Python \<^verbatim>\<open>int\<close> raises \<^verbatim>\<open>OverflowError\<close> before the statement runs.
\<close>

definition sqlite_int :: "int \<Rightarrow> bool" where
  "sqlite_int i = (- (2 ^ 63) \<le> i \<and> i < 2 ^ 63)"

text \<open>
  The table is what the bot's one shared connection sees. A storage statement either runs
  or raises \<^verbatim>\<open>sqlite3.Error\<close>; which of the two is an input of the model (a flag
  \<open>fails\<close>). A statement that raises writes nothing. A \<^verbatim>\<open>conn.commit()\<close> that raises
  after its statement ran undoes nothing (no handler rolls back): the write stays visible
  on the connection.

  \<^verbatim>\<open>ensure_user\<close>: \<^verbatim>\<open>INSERT INTO users (user_id, last_active) VALUES (?, ?)
  ON CONFLICT(user_id) DO UPDATE SET last_active=excluded.last_active\<close>, inside
  \<^verbatim>\<open>try ... except sqlite3.Error\<close> that only logs. \<open>fails\<close> says that the
  \<^verbatim>\<open>INSERT\<close> raises. A commit that raises after it is caught by the same clause and
  leaves the row written: for the table and for the caller that is the run with
  \<open>fails = False\<close>. The function returns \<^verbatim>\<open>None\<close> on every path, so the model
  returns the table alone.
\<close>

definition ensure_user :: "bool \<Rightarrow> string \<Rightarrow> int \<Rightarrow> users_table \<Rightarrow> users_table" where
  "ensure_user fails now uid db =
     (if fails then db
      else if fetch_user db uid = None
      then db @ [\<lparr>user_id = uid, uses_left = FREE_USES_LIMIT, last_active = now\<rparr>]
      else map (\<lambda>r. if user_id r = uid then r\<lparr>last_active := now\<rparr> else r) db)"

text \<open>\<^verbatim>\<open>UPDATE users SET uses_left = uses_left - 1 WHERE user_id = ?\<close> (in \<^verbatim>\<open>handle_photo\<close>).\<close>

definition decrement_use :: "int \<Rightarrow> users_table \<Rightarrow> users_table" where
  "decrement_use uid db =
     map (\<lambda>r. if user_id r = uid then r\<lparr>uses_left := uses_left r - 1\<rparr> else r) db"

text \<open>\<^verbatim>\<open>UPDATE users SET uses_left = 999 WHERE user_id = ?\<close> (in \<^verbatim>\<open>cmd_activate_user\<close>).\<close>

definition activate_row :: "int \<Rightarrow> users_table \<Rightarrow> users_table" where
  "activate_row uid db =
     map (\<lambda>r. if user_id r = uid then r\<lparr>uses_left := 999\<rparr> else r) db"

text \<open>
  \<^verbatim>\<open>get_user_stats\<close>: \<^verbatim>\<open>COUNT(*)\<close>, \<^verbatim>\<open>SUM(uses_left)\<close> (SQL \<^verbatim>\<open>NULL\<close>, Python
  \<^verbatim>\<open>None\<close>, on an empty table) and the count of rows with
  \<^verbatim>\<open>uses_left < FREE_USES_LIMIT\<close>; on \<^verbatim>\<open>sqlite3.Error\<close> it logs and returns
  \<^verbatim>\<open>0, 0, 0\<close>.
\<close>

definition get_user_stats :: "bool \<Rightarrow> users_table \<Rightarrow> int \<times> int option \<times> int" where
  "get_user_stats fails db =
     (if fails then (0, Some 0, 0)
      else (int (length db),
            (if db = [] then None else Some (sum_list (map uses_left db))),
            int (length (filter (\<lambda>r. uses_left r < FREE_USES_LIMIT) db))))"

text \<open>\<^verbatim>\<open>get_generation_count\<close>: the same count; \<^verbatim>\<open>0\<close> on \<^verbatim>\<open>sqlite3.Error\<close>.\<close>

definition get_generation_count :: "bool \<Rightarrow> users_table \<Rightarrow> int" where
  "get_generation_count fails db =
     (if fails then 0
      else int (length (filter (\<lambda>r. uses_left r < FREE_USES_LIMIT) db)))"

section \<open>Messages, dialog state, bot calls\<close>

text \<open>
  The fields of an incoming \<^verbatim>\<open>Message\<close> the handlers read. \<^verbatim>\<open>message.text\<close> and
  \<^verbatim>\<open>from_user.username\<close> may be \<^verbatim>\<open>None\<close>.
\<close>

record message =
  from_id :: int
  chat_id :: int
  msg_text :: "string option"
  username :: "string option"

text \<open>
  \<^verbatim>\<open>GenStates\<close> has two states; no state set is \<open>Idle\<close>. The memory storage keeps one
  state per chat and user.
\<close>

datatype dialog_state = Idle | AwaitPhoto | AwaitBroadcast

record world =
  users :: users_table
  fsm :: "int \<times> int \<Rightarrow> dialog_state"

definition clear_state :: "message \<Rightarrow> world \<Rightarrow> world" where
  "clear_state m w = w\<lparr>fsm := (fsm w)((chat_id m, from_id m) := Idle)\<rparr>"

definition set_state :: "dialog_state \<Rightarrow> message \<Rightarrow> world \<Rightarrow> world" where
  "set_state s m w = w\<lparr>fsm := (fsm w)((chat_id m, from_id m) := s)\<rparr>"

definition state_of :: "message \<Rightarrow> world \<Rightarrow> dialog_state" where
  "state_of m w = fsm w (chat_id m, from_id m)"

text \<open>
  Configuration read from the environment at start-up. \<^verbatim>\<open>CHANNEL_ID\<close> is \<^verbatim>\<open>None\<close>
  when the variable is unset or empty.
\<close>

record config =
  ADMIN_ID :: int
  CHANNEL_ID :: "string option"

text \<open>
  The texts the handlers send. The source's literals are Russian; each constructor stands
  for one literal (or one f-string with its holes as arguments):
  \<^item> \<open>NoAccess\<close>: the denial of \<^verbatim>\<open>/stats\<close>, \<^verbatim>\<open>/users\<close>, \<^verbatim>\<open>/activate\<close>;
  \<^item> \<open>NoAccessCommand\<close>: the denial of \<^verbatim>\<open>/broadcast\<close>, \<^verbatim>\<open>/find\<close>, \<^verbatim>\<open>/admin\<close>;
  \<^item> \<open>LimitExhausted\<close>: the upgrade message of the quota gate;
  \<^item> \<open>ImageError\<close>: the generic failure message of the photo analysis.
\<close>

datatype who = ByName string | ById int

datatype text_msg =
    NoAccess
  | NoAccessCommand
  | StatsReport int int int
  | NoUsers
  | UsersListing "user_row list"
  | UsersError
  | BroadcastPrompt
  | BroadcastEmpty
  | BroadcastText string
  | BroadcastChannelNote string
  | BroadcastDone nat nat
  | BroadcastError
  | FindUsage
  | FindFound int int
  | FindNotFound
  | IdNotNumber
  | FindError
  | AdminPanel int int int
  | ActivateUsage
  | Activated int
  | ActivationNotice
  | ActivateNotFound int
  | ActivateError
  | LimitExhausted
  | Processing
  | Answer string
  | ChannelPhotoNote who
  | ImageError
  | ProfileCaption int int
  | ImageLoadFailed text_msg
  | ImageNotFound text_msg

datatype chat = UserChat int | Channel string

text \<open>
  A call of the bot API, with whether it went through (\<open>True\<close>) or raised. The handlers'
  results list their calls in order; a call that raised is listed too, and what the raise
  does to the control flow is part of each handler.
\<close>

datatype bot_call =
    Send chat text_msg bool
  | SendPhoto chat string text_msg bool
  | DeleteMessage chat bool

text \<open>\<^verbatim>\<open>message.answer(t)\<close>: a send to the chat of the message.\<close>

definition answer :: "message \<Rightarrow> text_msg \<Rightarrow> bool \<Rightarrow> bot_call" where
  "answer m t fails = Send (UserChat (chat_id m)) t (\<not> fails)"

text \<open>Exceptions that leave a handler.\<close>

datatype exn = SqliteError | TransportError | AttributeError | OverflowError

record result =
  after :: world
  calls :: "bot_call list"
  raised :: "exn option"

section \<open>The photo handler\<close>

text \<open>
  What the collaborators do during one run of \<^verbatim>\<open>handle_photo\<close>: which storage
  statements and which bot calls raise, and what the analysis (fetching the file and the
  inference call, up to \<^verbatim>\<open>response.choices[0].message.content\<close>) returns, \<open>None\<close> when
  any step of it raises. \<open>decrement_fails\<close>: the \<^verbatim>\<open>UPDATE\<close> of the decrement raises;
  \<open>commit_fails\<close>: the \<^verbatim>\<open>conn.commit()\<close> after it raises.
\<close>

record photo_env =
  pe_now :: string
  ensure_fails :: bool
  select_fails :: bool
  limit_reply_fails :: bool
  processing_reply_fails :: bool
  analysis :: "string option"
  result_reply_fails :: bool
  channel_note_fails :: bool
  decrement_fails :: bool
  commit_fails :: bool
  error_reply_fails :: bool
  delete_fails :: bool

text \<open>\<^verbatim>\<open>uses_left = row[0] if row else 0\<close>.\<close>

definition uses_left_or_zero :: "users_table \<Rightarrow> int \<Rightarrow> int" where
  "uses_left_or_zero db uid = (case select_uses_left db uid of Some u \<Rightarrow> u | None \<Rightarrow> 0)"

text \<open>
  The notification to the channel, sent only if \<^verbatim>\<open>CHANNEL_ID\<close> is set; its own
  \<^verbatim>\<open>try ... except Exception\<close> logs a failure and goes on.
\<close>

definition username_or_id :: "message \<Rightarrow> who" where
  "username_or_id m =
     (case username m of
        None \<Rightarrow> ById (from_id m)
      | Some n \<Rightarrow> if n = [] then ById (from_id m) else ByName n)"

definition channel_note :: "config \<Rightarrow> photo_env \<Rightarrow> message \<Rightarrow> bot_call list" where
  "channel_note cfg e m =
     (case CHANNEL_ID cfg of
        None \<Rightarrow> []
      | Some c \<Rightarrow> [Send (Channel c) (ChannelPhotoNote (username_or_id m)) (\<not> channel_note_fails e)])"

text \<open>
  The body of the \<^verbatim>\<open>try\<close>: analysis, reply with the result, channel note, decrement and
  commit. It returns the table, the calls made, and whether it raised (every exception of
  the body is caught by \<^verbatim>\<open>except Exception\<close>). When the commit raises, the
  \<^verbatim>\<open>UPDATE\<close> has run and nothing rolls it back: the decrement stays in the table and the
  body has raised.
\<close>

definition photo_body ::
  "config \<Rightarrow> photo_env \<Rightarrow> message \<Rightarrow> users_table \<Rightarrow> users_table \<times> bot_call list \<times> bool" where
  "photo_body cfg e m db =
     (case analysis e of
        None \<Rightarrow> (db, [], True)
      | Some a \<Rightarrow>
          if result_reply_fails e then (db, [answer m (Answer a) True], True)
          else if decrement_fails e
          then (db, answer m (Answer a) False # channel_note cfg e m, True)
          else (decrement_use (from_id m) db,
                answer m (Answer a) False # channel_note cfg e m, commit_fails e))"

text \<open>
  \<^verbatim>\<open>handle_photo\<close>. \<^verbatim>\<open>ensure_user\<close>, the \<^verbatim>\<open>SELECT\<close>, the gate and the
  "processing" reply come before the \<^verbatim>\<open>try\<close>: an exception there leaves the handler at
  once. From the \<^verbatim>\<open>try\<close> on, the \<^verbatim>\<open>finally\<close> block (delete the "processing" message,
  failure logged; \<^verbatim>\<open>state.clear()\<close>) always runs; the reply of the \<^verbatim>\<open>except\<close> block can
  itself raise, and that exception leaves the handler after the \<^verbatim>\<open>finally\<close>.
\<close>

definition handle_photo :: "config \<Rightarrow> photo_env \<Rightarrow> message \<Rightarrow> world \<Rightarrow> result" where
  "handle_photo cfg e m w =
     (let w1 = w\<lparr>users := ensure_user (ensure_fails e) (pe_now e) (from_id m) (users w)\<rparr>
      in if select_fails e
         then \<lparr>after = w1, calls = [], raised = Some SqliteError\<rparr>
         else if uses_left_or_zero (users w1) (from_id m) \<le> 0
         then (if limit_reply_fails e
               then \<lparr>after = w1, calls = [answer m LimitExhausted True],
                     raised = Some TransportError\<rparr>
               else \<lparr>after = clear_state m w1, calls = [answer m LimitExhausted False],
                     raised = None\<rparr>)
         else if processing_reply_fails e
         then \<lparr>after = w1, calls = [answer m Processing True], raised = Some TransportError\<rparr>
         else (case photo_body cfg e m (users w1) of
                 (db2, cs, failed) \<Rightarrow>
                   \<lparr>after = clear_state m (w1\<lparr>users := db2\<rparr>),
                    calls = answer m Processing False # cs
                      @ (if failed then [answer m ImageError (error_reply_fails e)] else [])
                      @ [DeleteMessage (UserChat (chat_id m)) (\<not> delete_fails e)],
                    raised = (if failed \<and> error_reply_fails e
                              then Some TransportError else None)\<rparr>))"

text \<open>
  Notions the properties below are stated with. \<open>table_at_gate\<close> is the table the
  \<^verbatim>\<open>SELECT\<close> of the gate reads, that is, after the handler's own \<^verbatim>\<open>ensure_user\<close>.
  \<open>analysis_delivered\<close>: the inference call returned and its result reached the user.
  \<open>photo_succeeds\<close>: an admitted run delivered its analysis and its \<^verbatim>\<open>UPDATE\<close> ran
  (the commit after it may still raise: the decrement is in the table either way).
  \<open>sends r t\<close>: the run \<open>r\<close> made a send call with the text \<open>t\<close>.
\<close>

definition table_at_gate :: "photo_env \<Rightarrow> message \<Rightarrow> world \<Rightarrow> users_table" where
  "table_at_gate e m w = ensure_user (ensure_fails e) (pe_now e) (from_id m) (users w)"

definition analysis_delivered :: "photo_env \<Rightarrow> bool" where
  "analysis_delivered e = (analysis e \<noteq> None \<and> \<not> result_reply_fails e)"

definition photo_succeeds :: "photo_env \<Rightarrow> bool" where
  "photo_succeeds e =
     (\<not> select_fails e \<and> \<not> processing_reply_fails e \<and> analysis_delivered e
      \<and> \<not> decrement_fails e)"

fun call_text :: "bot_call \<Rightarrow> text_msg option" where
  "call_text (Send c t ok) = Some t"
| "call_text (SendPhoto c img t ok) = Some t"
| "call_text (DeleteMessage c ok) = None"

definition sends :: "result \<Rightarrow> text_msg \<Rightarrow> bool" where
  "sends r t = (Some t \<in> set (map call_text (calls r)))"

text \<open>
  Sequences of photo events, each with its own message and environment, handled one after
  the other; an event whose handler raises still leaves its writes behind.
\<close>

fun run_photos :: "config \<Rightarrow> (message \<times> photo_env) list \<Rightarrow> world \<Rightarrow> world" where
  "run_photos cfg [] w = w"
| "run_photos cfg ((m, e) # evs) w = run_photos cfg evs (after (handle_photo cfg e m w))"

text \<open>
  The number of events of a sequence that are successful gated actions of the user
  \<open>uid\<close>: the event is \<open>uid\<close>'s, it passes the gate in the world it is handled in, and
  its run succeeds.
\<close>

fun gated_successes :: "config \<Rightarrow> int \<Rightarrow> (message \<times> photo_env) list \<Rightarrow> world \<Rightarrow> nat" where
  "gated_successes cfg uid [] w = 0"
| "gated_successes cfg uid ((m, e) # evs) w =
     (if from_id m = uid \<and> 0 < uses_left_or_zero (table_at_gate e m w) uid \<and> photo_succeeds e
      then 1 else 0)
     + gated_successes cfg uid evs (after (handle_photo cfg e m w))"

section \<open>The broadcast handler\<close>

text \<open>
  What the collaborators do during one run of \<^verbatim>\<open>process_broadcast\<close>. \<open>deliver_fails\<close>
  says for which recipients \<^verbatim>\<open>bot.send_message\<close> raises. The handler is suspended at
  every send, and other handlers may write to the table meanwhile: \<open>concurrent_writes\<close> is
  what they do to it until the loop ends.
\<close>

record broadcast_env =
  empty_reply_fails :: bool
  listing_fails :: bool
  deliver_fails :: "int \<Rightarrow> bool"
  concurrent_writes :: "users_table \<Rightarrow> users_table"
  channel_fails :: bool
  report_fails :: bool
  failure_reply_fails :: bool

text \<open>
  The loop \<^verbatim>\<open>for user in users\<close> with its counters \<^verbatim>\<open>success, failed\<close>: a send that
  raises is caught, counted and the loop goes on.
\<close>

fun send_all ::
  "(int \<Rightarrow> bool) \<Rightarrow> string \<Rightarrow> int list \<Rightarrow> nat \<times> nat \<times> bot_call list
     \<Rightarrow> nat \<times> nat \<times> bot_call list" where
  "send_all fails txt [] acc = acc"
| "send_all fails txt (u # us) (success, failed, cs) =
     (if fails u
      then send_all fails txt us
             (success, failed + 1, cs @ [Send (UserChat u) (BroadcastText txt) False])
      else send_all fails txt us
             (success + 1, failed, cs @ [Send (UserChat u) (BroadcastText txt) True]))"

definition broadcast_note :: "config \<Rightarrow> broadcast_env \<Rightarrow> string \<Rightarrow> bot_call list" where
  "broadcast_note cfg e txt =
     (case CHANNEL_ID cfg of
        None \<Rightarrow> []
      | Some c \<Rightarrow> [Send (Channel c) (BroadcastChannelNote txt) (\<not> channel_fails e)])"

text \<open>
  \<^verbatim>\<open>process_broadcast\<close>. The empty-text branch replies, clears the state and returns
  (the reply comes first, so if it raises the state is not cleared). The rest is
  \<^verbatim>\<open>try ... except sqlite3.Error ... finally: state.clear()\<close>: the listing
  \<^verbatim>\<open>SELECT user_id FROM users\<close> is read once, before the loop; a failure of the final
  report is not an \<^verbatim>\<open>sqlite3.Error\<close> and leaves the handler after the \<^verbatim>\<open>finally\<close>.
\<close>

definition broadcast_empty :: "broadcast_env \<Rightarrow> message \<Rightarrow> world \<Rightarrow> result" where
  "broadcast_empty e m w =
     (if empty_reply_fails e
      then \<lparr>after = w, calls = [answer m BroadcastEmpty True], raised = Some TransportError\<rparr>
      else \<lparr>after = clear_state m w, calls = [answer m BroadcastEmpty False], raised = None\<rparr>)"

definition process_broadcast :: "config \<Rightarrow> broadcast_env \<Rightarrow> message \<Rightarrow> world \<Rightarrow> result" where
  "process_broadcast cfg e m w =
     (case msg_text m of
        None \<Rightarrow> broadcast_empty e m w
      | Some txt \<Rightarrow>
          if txt = [] then broadcast_empty e m w
          else if listing_fails e
          then \<lparr>after = clear_state m w,
                calls = [answer m BroadcastError (failure_reply_fails e)],
                raised = (if failure_reply_fails e then Some TransportError else None)\<rparr>
          else (case send_all (deliver_fails e) txt (map user_id (users w)) (0, 0, []) of
                  (success, failed, cs) \<Rightarrow>
                    \<lparr>after = clear_state m (w\<lparr>users := concurrent_writes e (users w)\<rparr>),
                     calls = cs @ broadcast_note cfg e txt
                       @ [answer m (BroadcastDone success failed) (report_fails e)],
                     raised = (if report_fails e then Some TransportError else None)\<rparr>))"

section \<open>The administrator's commands\<close>

text \<open>
  What the collaborators do during one run of a command handler: whether its
  \<^verbatim>\<open>message.answer\<close> raises, whether its own SQL statement raises, whether the commit
  after that statement raises (only \<^verbatim>\<open>/activate\<close> commits), whether the queries of
  \<^verbatim>\<open>get_user_stats\<close> and \<^verbatim>\<open>get_generation_count\<close> raise, and whether the notice to
  an activated user raises.
\<close>

record cmd_env =
  reply_fails :: bool
  db_fails :: bool
  db_commit_fails :: bool
  stats_fails :: bool
  count_fails :: bool
  notify_fails :: bool

text \<open>
  The two Python built-ins the handlers parse their argument with are parameters:
  \<open>str_split\<close> is \<^verbatim>\<open>s.strip().split()\<close> and \<open>to_int\<close> is \<^verbatim>\<open>int(s)\<close>, \<open>None\<close> for
  \<^verbatim>\<open>ValueError\<close>.
\<close>

record pylib =
  str_split :: "string \<Rightarrow> string list"
  to_int :: "string \<Rightarrow> int option"

text \<open>One \<^verbatim>\<open>await message.answer(t)\<close> as the last action of a handler.\<close>

definition reply :: "cmd_env \<Rightarrow> message \<Rightarrow> world \<Rightarrow> text_msg \<Rightarrow> result" where
  "reply e m w t =
     \<lparr>after = w, calls = [answer m t (reply_fails e)],
      raised = (if reply_fails e then Some TransportError else None)\<rparr>"

definition cmd_stats :: "config \<Rightarrow> cmd_env \<Rightarrow> message \<Rightarrow> world \<Rightarrow> result" where
  "cmd_stats cfg e m w =
     (if from_id m \<noteq> ADMIN_ID cfg then reply e m w NoAccess
      else (case get_user_stats (stats_fails e) (users w) of
              (total_users, total_uses, paid_users) \<Rightarrow>
                reply e m w
                  (StatsReport total_users paid_users
                     (get_generation_count (count_fails e) (users w)))))"

text \<open>
  \<^verbatim>\<open>cmd_list_users\<close>: \<^verbatim>\<open>ORDER BY last_active DESC LIMIT 20\<close>. SQL leaves the order of
  rows with equal \<^verbatim>\<open>last_active\<close> open; here they come in reverse table order.
\<close>

definition cmd_list_users :: "config \<Rightarrow> cmd_env \<Rightarrow> message \<Rightarrow> world \<Rightarrow> result" where
  "cmd_list_users cfg e m w =
     (if from_id m \<noteq> ADMIN_ID cfg then reply e m w NoAccess
      else if db_fails e then reply e m w UsersError
      else if users w = [] then reply e m w NoUsers
      else reply e m w (UsersListing (take 20 (rev (sort_key last_active (users w))))))"

definition cmd_broadcast :: "config \<Rightarrow> cmd_env \<Rightarrow> message \<Rightarrow> world \<Rightarrow> result" where
  "cmd_broadcast cfg e m w =
     (if from_id m \<noteq> ADMIN_ID cfg then reply e m w NoAccessCommand
      else if reply_fails e
      then \<lparr>after = w, calls = [answer m BroadcastPrompt True], raised = Some TransportError\<rparr>
      else \<lparr>after = set_state AwaitBroadcast m w, calls = [answer m BroadcastPrompt False],
            raised = None\<rparr>)"

text \<open>
  \<^verbatim>\<open>cmd_find_user\<close>. \<^verbatim>\<open>message.text.strip()\<close> on a message without text raises
  \<^verbatim>\<open>AttributeError\<close> outside the \<^verbatim>\<open>try\<close>. Inside it, \<^verbatim>\<open>int\<close> accepts any
  number of digits, and binding an id outside 64 bits raises \<^verbatim>\<open>OverflowError\<close>, which
  neither \<^verbatim>\<open>except ValueError\<close> nor \<^verbatim>\<open>except sqlite3.Error\<close> catches: it leaves
  the handler with no reply.
\<close>

definition cmd_find_user ::
  "pylib \<Rightarrow> config \<Rightarrow> cmd_env \<Rightarrow> message \<Rightarrow> world \<Rightarrow> result" where
  "cmd_find_user lib cfg e m w =
     (if from_id m \<noteq> ADMIN_ID cfg then reply e m w NoAccessCommand
      else (case msg_text m of
              None \<Rightarrow> \<lparr>after = w, calls = [], raised = Some AttributeError\<rparr>
            | Some t \<Rightarrow>
                (case str_split lib t of
                   [cmd, arg] \<Rightarrow>
                     (case to_int lib arg of
                        None \<Rightarrow> reply e m w IdNotNumber
                      | Some target_id \<Rightarrow>
                          if \<not> sqlite_int target_id
                          then \<lparr>after = w, calls = [], raised = Some OverflowError\<rparr>
                          else if db_fails e then reply e m w FindError
                          else (case select_uses_left (users w) target_id of
                                  Some u \<Rightarrow> reply e m w (FindFound target_id u)
                                | None \<Rightarrow> reply e m w FindNotFound))
                 | _ \<Rightarrow> reply e m w FindUsage)))"

definition cmd_admin :: "config \<Rightarrow> cmd_env \<Rightarrow> message \<Rightarrow> world \<Rightarrow> result" where
  "cmd_admin cfg e m w =
     (if from_id m \<noteq> ADMIN_ID cfg then reply e m w NoAccessCommand
      else (case get_user_stats (stats_fails e) (users w) of
              (total_users, total_uses, paid_users) \<Rightarrow>
                reply e m w
                  (AdminPanel total_users (case total_uses of None \<Rightarrow> 0 | Some s \<Rightarrow> s)
                     paid_users)))"

text \<open>
  \<^verbatim>\<open>cmd_activate_user\<close>. An id outside 64 bits raises \<^verbatim>\<open>OverflowError\<close> as in
  \<^verbatim>\<open>cmd_find_user\<close>. When the commit raises, the \<^verbatim>\<open>UPDATE\<close> has run and stays in the
  table, and the handler answers with its failure text. The notice to the activated user
  has its own \<^verbatim>\<open>try ... except Exception\<close>; it is sent after the reply to the
  administrator.
\<close>

definition cmd_activate_user ::
  "pylib \<Rightarrow> config \<Rightarrow> cmd_env \<Rightarrow> message \<Rightarrow> world \<Rightarrow> result" where
  "cmd_activate_user lib cfg e m w =
     (if from_id m \<noteq> ADMIN_ID cfg then reply e m w NoAccess
      else (case msg_text m of
              None \<Rightarrow> \<lparr>after = w, calls = [], raised = Some AttributeError\<rparr>
            | Some t \<Rightarrow>
                (case str_split lib t of
                   [cmd, arg] \<Rightarrow>
                     (case to_int lib arg of
                        None \<Rightarrow> reply e m w IdNotNumber
                      | Some uid \<Rightarrow>
                          if \<not> sqlite_int uid
                          then \<lparr>after = w, calls = [], raised = Some OverflowError\<rparr>
                          else if db_fails e then reply e m w ActivateError
                          else if db_commit_fails e
                          then reply e m (w\<lparr>users := activate_row uid (users w)\<rparr>)
                                 ActivateError
                          else if 0 < rowcount (users w) uid
                          then (if reply_fails e
                                then \<lparr>after = w\<lparr>users := activate_row uid (users w)\<rparr>,
                                      calls = [answer m (Activated uid) True],
                                      raised = Some TransportError\<rparr>
                                else \<lparr>after = w\<lparr>users := activate_row uid (users w)\<rparr>,
                                      calls = [answer m (Activated uid) False,
                                               Send (UserChat uid) ActivationNotice
                                                 (\<not> notify_fails e)],
                                      raised = None\<rparr>)
                          else reply e m (w\<lparr>users := activate_row uid (users w)\<rparr>)
                                 (ActivateNotFound uid))
                 | _ \<Rightarrow> reply e m w ActivateUsage)))"

section \<open>The profile command\<close>




section \<open>Sample inputs\<close>

text \<open>Concrete inputs at which the theorems below are instantiated.\<close>

definition sample_config :: config where
  "sample_config = \<lparr>ADMIN_ID = 1, CHANNEL_ID = Some ''@news''\<rparr>"

definition photo_of_7 :: message where
  "photo_of_7 = \<lparr>from_id = 7, chat_id = 7, msg_text = None, username = None\<rparr>"

definition smooth_run :: photo_env where
  "smooth_run = \<lparr>pe_now = ''t1'', ensure_fails = False, select_fails = False,
     limit_reply_fails = False, processing_reply_fails = False, analysis = Some ''soup'',
     result_reply_fails = False, channel_note_fails = False, decrement_fails = False,
     commit_fails = False, error_reply_fails = False, delete_fails = False\<rparr>"

definition failed_inference :: photo_env where
  "failed_inference = smooth_run\<lparr>analysis := None\<rparr>"

definition world_of_7 :: "int \<Rightarrow> world" where
  "world_of_7 u = \<lparr>users = [\<lparr>user_id = 7, uses_left = u, last_active = ''t0''\<rparr>],
     fsm = (\<lambda>k. Idle)((7, 7) := AwaitPhoto)\<rparr>"

definition sample_lib :: pylib where
  "sample_lib = \<lparr>str_split = (\<lambda>s. if s = ''/activate 7'' then [''/activate'', ''7''] else [s]),
     to_int = (\<lambda>s. if s = ''7'' then Some 7 else None)\<rparr>"

definition activate_7 :: message where
  "activate_7 = \<lparr>from_id = 1, chat_id = 1, msg_text = Some ''/activate 7'', username = None\<rparr>"

definition calm :: cmd_env where
  "calm = \<lparr>reply_fails = False, db_fails = False, db_commit_fails = False,
     stats_fails = False, count_fails = False, notify_fails = False\<rparr>"

definition three_users :: world where
  "three_users = \<lparr>users = [\<lparr>user_id = 1, uses_left = 10, last_active = ''t0''\<rparr>,
                            \<lparr>user_id = 7, uses_left = 3, last_active = ''t1''\<rparr>,
                            \<lparr>user_id = 8, uses_left = 999, last_active = ''t2''\<rparr>],
     fsm = (\<lambda>k. Idle)((1, 1) := AwaitBroadcast)\<rparr>"

definition news_text :: message where
  "news_text = \<lparr>from_id = 1, chat_id = 1, msg_text = Some ''news'', username = None\<rparr>"

definition one_blocked :: broadcast_env where
  "one_blocked = \<lparr>empty_reply_fails = False, listing_fails = False,
     deliver_fails = (\<lambda>u. u = 7),
     concurrent_writes = (\<lambda>db. db @ [\<lparr>user_id = 9, uses_left = 10, last_active = ''t3''\<rparr>]),
     channel_fails = True, report_fails = False, failure_reply_fails = False\<rparr>"


definition stats_of_7 :: message where
  "stats_of_7 = \<lparr>from_id = 7, chat_id = 7, msg_text = Some ''/stats'', username = None\<rparr>"








definition select_down :: photo_env where
  "select_down = smooth_run\<lparr>select_fails := True\<rparr>"

definition denial_reply_lost :: photo_env where
  "denial_reply_lost = smooth_run\<lparr>limit_reply_fails := True\<rparr>"

definition processing_reply_lost :: photo_env where
  "processing_reply_lost = smooth_run\<lparr>processing_reply_fails := True\<rparr>"

definition sticker_of_admin :: message where
  "sticker_of_admin = \<lparr>from_id = 1, chat_id = 1, msg_text = None, username = None\<rparr>"

definition empty_reply_lost :: broadcast_env where
  "empty_reply_lost = one_blocked\<lparr>empty_reply_fails := True\<rparr>"


section \<open>Lemmas about the table\<close>

lemmas sample_defs = sample_config_def photo_of_7_def smooth_run_def failed_inference_def
  world_of_7_def

lemmas store_defs = table_at_gate_def ensure_user_def fetch_user_def select_uses_left_def
  uses_left_or_zero_def FREE_USES_LIMIT_def decrement_use_def

lemma fetch_user_map:
  assumes "\<And>r. user_id (f r) = user_id r"
  shows "fetch_user (map f db) uid = map_option f (fetch_user db uid)"
  using assms by (induction db) (simp_all add: fetch_user_def)

lemma fetch_user_append:
  "fetch_user (db @ db') uid = (case fetch_user db uid of Some r \<Rightarrow> Some r | None \<Rightarrow> fetch_user db' uid)"
  by (induction db) (simp_all add: fetch_user_def)

lemma fetch_user_id: "fetch_user db uid = Some r \<Longrightarrow> user_id r = uid"
  by (auto simp: fetch_user_def dest: find_Some_iff[THEN iffD1])

lemma select_decrement:
  "select_uses_left (decrement_use uid db) uid' =
     map_option (\<lambda>u. if uid' = uid then u - 1 else u) (select_uses_left db uid')"
proof -
  have "fetch_user (decrement_use uid db) uid' =
        map_option (\<lambda>r. if user_id r = uid then r\<lparr>uses_left := uses_left r - 1\<rparr> else r) (fetch_user db uid')"
    unfolding decrement_use_def by (rule fetch_user_map) simp
  moreover have "fetch_user db uid' = Some r \<Longrightarrow> user_id r = uid'" for r
    by (rule fetch_user_id)
  ultimately show ?thesis
    by (cases "fetch_user db uid'") (auto simp: select_uses_left_def)
qed

lemma select_activate:
  "select_uses_left (activate_row uid db) uid' =
     map_option (\<lambda>u. if uid' = uid then 999 else u) (select_uses_left db uid')"
proof -
  have "fetch_user (activate_row uid db) uid' =
        map_option (\<lambda>r. if user_id r = uid then r\<lparr>uses_left := 999\<rparr> else r) (fetch_user db uid')"
    unfolding activate_row_def by (rule fetch_user_map) simp
  moreover have "fetch_user db uid' = Some r \<Longrightarrow> user_id r = uid'" for r
    by (rule fetch_user_id)
  ultimately show ?thesis
    by (cases "fetch_user db uid'") (auto simp: select_uses_left_def)
qed

lemma fetch_ensure:
  "fetch_user (ensure_user fails now uid db) uid' =
     (if fails then fetch_user db uid'
      else if fetch_user db uid = None
      then (if uid' = uid
            then Some \<lparr>user_id = uid, uses_left = FREE_USES_LIMIT, last_active = now\<rparr>
            else fetch_user db uid')
      else map_option (\<lambda>r. if user_id r = uid then r\<lparr>last_active := now\<rparr> else r)
             (fetch_user db uid'))"
proof -
  have m: "fetch_user (map (\<lambda>r. if user_id r = uid then r\<lparr>last_active := now\<rparr> else r) db) u =
        map_option (\<lambda>r. if user_id r = uid then r\<lparr>last_active := now\<rparr> else r) (fetch_user db u)" for u
    by (rule fetch_user_map) simp
  have a: "fetch_user [\<lparr>user_id = uid, uses_left = FREE_USES_LIMIT, last_active = now\<rparr>] uid' =
      (if uid' = uid then Some \<lparr>user_id = uid, uses_left = FREE_USES_LIMIT, last_active = now\<rparr> else None)"
    by (auto simp: fetch_user_def)
  show ?thesis
    unfolding ensure_user_def
    by (cases "fetch_user db uid'") (auto simp: m a fetch_user_append dest: fetch_user_id)
qed

lemma select_ensure:
  "select_uses_left (ensure_user fails now uid db) uid' =
     (if \<not> fails \<and> uid' = uid \<and> select_uses_left db uid = None then Some FREE_USES_LIMIT
      else select_uses_left db uid')"
  by (cases "fetch_user db uid'") (auto simp: select_uses_left_def fetch_ensure)


lemma no_row_filter:
  "fetch_user db uid = None \<Longrightarrow> filter (\<lambda>r. user_id r = uid) db = []"
  by (induction db) (auto simp: fetch_user_def split: if_splits)

lemma ensure_twice_new:
  assumes "select_uses_left db uid = None"
  shows "ensure_user False t2 uid (ensure_user False t1 uid db)
           = db @ [\<lparr>user_id = uid, uses_left = FREE_USES_LIMIT, last_active = t2\<rparr>]"
proof -
  have n: "fetch_user db uid = None" using assms by (simp add: select_uses_left_def)
  have keep: "map (\<lambda>r. if user_id r = uid then r\<lparr>last_active := t2\<rparr> else r) db = db"
    using no_row_filter[OF n] by (induction db) (auto split: if_splits)
  have e1: "ensure_user False t1 uid db
              = db @ [\<lparr>user_id = uid, uses_left = FREE_USES_LIMIT, last_active = t1\<rparr>]"
    using n by (simp add: ensure_user_def)
  have "fetch_user (ensure_user False t1 uid db) uid \<noteq> None"
    using n by (simp add: fetch_ensure)
  then show ?thesis
    unfolding e1 by (simp add: ensure_user_def keep)
qed

lemma last_active_ensure:
  "map_option last_active (fetch_user (ensure_user False t uid db) uid) = Some t"
  by (cases "fetch_user db uid") (auto simp: fetch_ensure dest: fetch_user_id)

section \<open>Lemmas about the photo handler\<close>

lemma handle_photo_users:
  "users (after (handle_photo cfg e m w)) =
     (if 0 < uses_left_or_zero (table_at_gate e m w) (from_id m) \<and> photo_succeeds e
      then decrement_use (from_id m) (table_at_gate e m w)
      else table_at_gate e m w)"
  by (auto simp: handle_photo_def Let_def photo_body_def table_at_gate_def photo_succeeds_def
        analysis_delivered_def clear_state_def split: option.splits)

lemma select_at_gate:
  "select_uses_left (users w) uid = Some u \<Longrightarrow> select_uses_left (table_at_gate e m w) uid = Some u"
  by (auto simp: table_at_gate_def select_ensure)

lemma select_after_photo:
  assumes "select_uses_left (users w) uid = Some u"
  shows "select_uses_left (users (after (handle_photo cfg e m w))) uid =
     Some (u - (if from_id m = uid \<and> 0 < u \<and> photo_succeeds e then 1 else 0))"
  using select_at_gate[OF assms, of e m]
  by (auto simp: handle_photo_users select_decrement uses_left_or_zero_def)

lemma run_photos_select:
  "select_uses_left (users w) uid = Some u \<Longrightarrow>
   select_uses_left (users (run_photos cfg evs w)) uid = Some (u - int (gated_successes cfg uid evs w))"
proof (induction evs arbitrary: w u)
  case Nil
  then show ?case by simp
next
  case (Cons ev evs)
  obtain m e where ev: "ev = (m, e)" by (cases ev)
  let ?w' = "after (handle_photo cfg e m w)"
  let ?d = "if from_id m = uid \<and> 0 < u \<and> photo_succeeds e then 1 else (0::int)"
  have step: "select_uses_left (users ?w') uid = Some (u - ?d)"
    by (rule select_after_photo[OF Cons.prems])
  have gate: "uses_left_or_zero (table_at_gate e m w) uid = u"
    using select_at_gate[OF Cons.prems, of e m] by (simp add: uses_left_or_zero_def)
  show ?case
    using Cons.IH[OF step] by (simp add: ev gate)
qed


lemma gated_successes_all:
  "select_uses_left (users w) uid = Some u \<Longrightarrow>
   \<forall>ev\<in>set evs. from_id (fst ev) = uid \<and> photo_succeeds (snd ev) \<Longrightarrow>
   int (length evs) \<le> u \<Longrightarrow> gated_successes cfg uid evs w = length evs"
proof (induction evs arbitrary: w u)
  case Nil
  then show ?case by simp
next
  case (Cons ev evs)
  obtain m e where ev: "ev = (m, e)" by (cases ev)
  have good: "from_id m = uid" "photo_succeeds e" using Cons.prems(2) ev by auto
  have pos: "0 < u" using Cons.prems(3) by simp
  let ?w' = "after (handle_photo cfg e m w)"
  have step: "select_uses_left (users ?w') uid = Some (u - 1)"
    using select_after_photo[OF Cons.prems(1), of cfg e m] good pos by simp
  have gate: "uses_left_or_zero (table_at_gate e m w) uid = u"
    using select_at_gate[OF Cons.prems(1), of e m] by (simp add: uses_left_or_zero_def)
  have "gated_successes cfg uid evs ?w' = length evs"
    using Cons.IH[OF step] Cons.prems(2,3) by simp
  then show ?case using good pos by (simp add: ev gate)
qed


lemma handle_photo_denied:
  assumes "\<not> select_fails e" "uses_left_or_zero (table_at_gate e m w) (from_id m) \<le> 0"
  shows "calls (handle_photo cfg e m w) = [answer m LimitExhausted (limit_reply_fails e)]"
    and "users (after (handle_photo cfg e m w)) = table_at_gate e m w"
  using assms by (auto simp: handle_photo_def Let_def table_at_gate_def clear_state_def)

lemma denied_table:
  assumes "uses_left_or_zero (table_at_gate e m w) (from_id m) \<le> 0"
  shows "table_at_gate e m w =
     map (\<lambda>row. if user_id row = from_id m \<and> \<not> ensure_fails e
                 then row\<lparr>last_active := pe_now e\<rparr> else row) (users w)"
proof (cases "ensure_fails e")
  case True
  then show ?thesis by (simp add: table_at_gate_def ensure_user_def)
next
  case False
  have "fetch_user (users w) (from_id m) \<noteq> None"
  proof
    assume "fetch_user (users w) (from_id m) = None"
    then have "select_uses_left (users w) (from_id m) = None"
      by (simp add: select_uses_left_def)
    then have "select_uses_left (table_at_gate e m w) (from_id m) = Some FREE_USES_LIMIT"
      using False by (simp add: table_at_gate_def select_ensure)
    then show False using assms by (simp add: uses_left_or_zero_def FREE_USES_LIMIT_def)
  qed
  then show ?thesis using False by (auto simp: table_at_gate_def ensure_user_def)
qed

lemma handle_photo_allowed:
  assumes "\<not> select_fails e" "0 < uses_left_or_zero (table_at_gate e m w) (from_id m)"
  shows "\<exists>cs. calls (handle_photo cfg e m w) = answer m Processing (processing_reply_fails e) # cs
           \<and> Some LimitExhausted \<notin> set (map call_text cs)"
  using assms
  by (auto simp: handle_photo_def Let_def table_at_gate_def photo_body_def answer_def
        channel_note_def split: option.splits prod.splits)

lemma sends_limit_iff:
  assumes "\<not> select_fails e"
  shows "sends (handle_photo cfg e m w) LimitExhausted
           \<longleftrightarrow> uses_left_or_zero (table_at_gate e m w) (from_id m) \<le> 0"
proof (cases "uses_left_or_zero (table_at_gate e m w) (from_id m) \<le> 0")
  case True
  then show ?thesis
    using handle_photo_denied(1)[OF assms True, of cfg] by (simp add: sends_def answer_def)
next
  case False
  then have "0 < uses_left_or_zero (table_at_gate e m w) (from_id m)" by simp
  from handle_photo_allowed[OF assms this, of cfg] False show ?thesis
    by (auto simp: sends_def answer_def)
qed

lemma sends_processing_iff:
  assumes "\<not> select_fails e"
  shows "sends (handle_photo cfg e m w) Processing
           \<longleftrightarrow> 0 < uses_left_or_zero (table_at_gate e m w) (from_id m)"
proof (cases "uses_left_or_zero (table_at_gate e m w) (from_id m) \<le> 0")
  case True
  then show ?thesis
    using handle_photo_denied(1)[OF assms True, of cfg] by (simp add: sends_def answer_def)
next
  case False
  then have "0 < uses_left_or_zero (table_at_gate e m w) (from_id m)" by simp
  from handle_photo_allowed[OF assms this, of cfg] False show ?thesis
    by (auto simp: sends_def answer_def)
qed

lemma activate_users:
  assumes "from_id am = ADMIN_ID cfg" "msg_text am = Some t" "str_split lib t = [c, a]"
    "to_int lib a = Some uid" "sqlite_int uid" "\<not> db_fails ce"
  shows "users (after (cmd_activate_user lib cfg ce am w)) = activate_row uid (users w)"
  using assms by (simp add: cmd_activate_user_def reply_def)

section \<open>Quota\<close>




text \<open>
  C2. The quota gate of \<^verbatim>\<open>handle_photo\<close>, whenever its \<^verbatim>\<open>SELECT\<close> runs: the
  handler sends the upgrade message \<open>LimitExhausted\<close> if and only if the \<^verbatim>\<open>uses_left\<close>
  it reads is \<open>\<le> 0\<close>, and the "processing" reply that opens the analysis if and only if
  it is positive; a denied run makes that one call and no further write. A missing row
  reads as 0. With \<^verbatim>\<open>uses_left = 1\<close> the event is admitted, a successful run leaves 0,
  and the next photo event of the same user is denied.
\<close>

theorem denial_boundary:
  "(\<not> select_fails e \<longrightarrow>
      (sends (handle_photo cfg e m w) LimitExhausted
         \<longleftrightarrow> uses_left_or_zero (table_at_gate e m w) (from_id m) \<le> 0)
      \<and> (sends (handle_photo cfg e m w) Processing
         \<longleftrightarrow> 0 < uses_left_or_zero (table_at_gate e m w) (from_id m))
      \<and> (uses_left_or_zero (table_at_gate e m w) (from_id m) \<le> 0 \<longrightarrow>
           calls (handle_photo cfg e m w) = [answer m LimitExhausted (limit_reply_fails e)]
           \<and> users (after (handle_photo cfg e m w)) = table_at_gate e m w))
   \<and> (select_uses_left db uid = None \<longrightarrow> uses_left_or_zero db uid = 0)
   \<and> (select_uses_left (users w) (from_id m) = Some 1 \<and> photo_succeeds e
        \<and> from_id m' = from_id m \<and> \<not> select_fails e' \<longrightarrow>
         sends (handle_photo cfg e m w) Processing
         \<and> \<not> sends (handle_photo cfg e m w) LimitExhausted
         \<and> select_uses_left (users (after (handle_photo cfg e m w))) (from_id m) = Some 0
         \<and> sends (handle_photo cfg e' m' (after (handle_photo cfg e m w))) LimitExhausted
         \<and> \<not> sends (handle_photo cfg e' m' (after (handle_photo cfg e m w))) Processing)"
proof (intro conjI impI)
  assume s: "\<not> select_fails e"
  show "sends (handle_photo cfg e m w) LimitExhausted
         \<longleftrightarrow> uses_left_or_zero (table_at_gate e m w) (from_id m) \<le> 0"
    by (rule sends_limit_iff[OF s])
  show "sends (handle_photo cfg e m w) Processing
         \<longleftrightarrow> 0 < uses_left_or_zero (table_at_gate e m w) (from_id m)"
    by (rule sends_processing_iff[OF s])
  assume d: "uses_left_or_zero (table_at_gate e m w) (from_id m) \<le> 0"
  show "calls (handle_photo cfg e m w) = [answer m LimitExhausted (limit_reply_fails e)]"
    by (rule handle_photo_denied(1)[OF s d])
  show "users (after (handle_photo cfg e m w)) = table_at_gate e m w"
    by (rule handle_photo_denied(2)[OF s d])
next
  assume "select_uses_left db uid = None"
  then show "uses_left_or_zero db uid = 0" by (simp add: uses_left_or_zero_def)
next
  assume a: "select_uses_left (users w) (from_id m) = Some 1 \<and> photo_succeeds e
        \<and> from_id m' = from_id m \<and> \<not> select_fails e'"
  then have one: "select_uses_left (users w) (from_id m) = Some 1"
    and ok: "photo_succeeds e" and same: "from_id m' = from_id m" and s': "\<not> select_fails e'"
    by simp_all
  have s: "\<not> select_fails e" using ok by (simp add: photo_succeeds_def)
  have gate: "uses_left_or_zero (table_at_gate e m w) (from_id m) = 1"
    using select_at_gate[OF one, of e m] by (simp add: uses_left_or_zero_def)
  let ?w' = "after (handle_photo cfg e m w)"
  have zero: "select_uses_left (users ?w') (from_id m) = Some 0"
    using select_after_photo[OF one, of cfg e m] ok by simp
  have gate': "uses_left_or_zero (table_at_gate e' m' ?w') (from_id m') = 0"
    using select_at_gate[OF zero, of e' m'] same by (simp add: uses_left_or_zero_def)
  show "sends (handle_photo cfg e m w) Processing"
    using sends_processing_iff[OF s, of cfg m w] gate by simp
  show "\<not> sends (handle_photo cfg e m w) LimitExhausted"
    using sends_limit_iff[OF s, of cfg m w] gate by simp
  show "select_uses_left (users ?w') (from_id m) = Some 0" by (rule zero)
  show "sends (handle_photo cfg e' m' ?w') LimitExhausted"
    using sends_limit_iff[OF s', of cfg m' ?w'] gate' by simp
  show "\<not> sends (handle_photo cfg e' m' ?w') Processing"
    using sends_processing_iff[OF s', of cfg m' ?w'] gate' by simp
qed

theorem denial_boundary_witness:
  "\<not> select_fails smooth_run
   \<and> uses_left_or_zero (table_at_gate smooth_run photo_of_7 (world_of_7 0)) (from_id photo_of_7) \<le> 0
   \<and> select_uses_left [] 7 = None
   \<and> select_uses_left (users (world_of_7 1)) (from_id photo_of_7) = Some 1
   \<and> photo_succeeds smooth_run \<and> from_id photo_of_7 = from_id photo_of_7
   \<and> \<not> select_fails smooth_run
   \<and> sends (handle_photo sample_config smooth_run photo_of_7 (world_of_7 0)) LimitExhausted
   \<and> \<not> sends (handle_photo sample_config smooth_run photo_of_7 (world_of_7 0)) Processing
   \<and> calls (handle_photo sample_config smooth_run photo_of_7 (world_of_7 0))
       = [answer photo_of_7 LimitExhausted False]
   \<and> uses_left_or_zero [] 7 = 0
   \<and> sends (handle_photo sample_config smooth_run photo_of_7 (world_of_7 1)) Processing
   \<and> sends (handle_photo sample_config smooth_run photo_of_7
        (after (handle_photo sample_config smooth_run photo_of_7 (world_of_7 1)))) LimitExhausted"
  using denial_boundary [of smooth_run sample_config photo_of_7 "world_of_7 0" "[]" 7]
    denial_boundary [of smooth_run sample_config photo_of_7 "world_of_7 1" "[]" 7 photo_of_7
      smooth_run]
  by (simp add: sample_defs store_defs photo_succeeds_def
        analysis_delivered_def)

text \<open>
  C6 as stated does not hold: the handler calls \<^verbatim>\<open>ensure_user\<close> before the gate, so a
  denied event of a known user rewrites that user's \<^verbatim>\<open>last_active\<close>. Here user 7 has
  \<^verbatim>\<open>uses_left = 0\<close> and \<^verbatim>\<open>last_active = t0\<close>; the event at time \<^verbatim>\<open>t1\<close> is denied
  and the row then holds \<^verbatim>\<open>t1\<close>.
\<close>

theorem denied_event_refreshes_last_active:
  "uses_left_or_zero (users (world_of_7 0)) 7 \<le> 0
   \<and> calls (handle_photo sample_config smooth_run photo_of_7 (world_of_7 0))
       = [Send (UserChat 7) LimitExhausted True]
   \<and> map last_active (users (world_of_7 0)) = [''t0'']
   \<and> map last_active (users (after (handle_photo sample_config smooth_run photo_of_7 (world_of_7 0))))
       = [''t1'']
   \<and> users (after (handle_photo sample_config smooth_run photo_of_7 (world_of_7 0)))
       \<noteq> users (world_of_7 0)"
  by (simp add: sample_defs store_defs handle_photo_def Let_def clear_state_def answer_def)

text \<open>
  C6, amended. When the gate denies (the \<^verbatim>\<open>SELECT\<close> runs and reads
  \<^verbatim>\<open>uses_left \<le> 0\<close>), the only call is the send of the upgrade message, no row is
  inserted or removed, every \<^verbatim>\<open>uses_left\<close> is unchanged, and the only write to the table
  is that of \<^verbatim>\<open>ensure_user\<close>: the sender's \<^verbatim>\<open>last_active\<close> is set to the time of the
  event, unless that statement failed.
\<close>

theorem denied_event_effects:
  assumes "\<not> select_fails e"
    and "uses_left_or_zero (table_at_gate e m w) (from_id m) \<le> 0"
  shows "calls (handle_photo cfg e m w) = [answer m LimitExhausted (limit_reply_fails e)]
     \<and> users (after (handle_photo cfg e m w)) =
         map (\<lambda>row. if user_id row = from_id m \<and> \<not> ensure_fails e
                     then row\<lparr>last_active := pe_now e\<rparr> else row) (users w)
     \<and> map user_id (users (after (handle_photo cfg e m w))) = map user_id (users w)
     \<and> map uses_left (users (after (handle_photo cfg e m w))) = map uses_left (users w)"
proof -
  have t: "users (after (handle_photo cfg e m w)) =
         map (\<lambda>row. if user_id row = from_id m \<and> \<not> ensure_fails e
                     then row\<lparr>last_active := pe_now e\<rparr> else row) (users w)"
    using handle_photo_denied(2)[OF assms] denied_table[OF assms(2)] by simp
  have "map user_id (users (after (handle_photo cfg e m w))) = map user_id (users w)"
    unfolding t by (induction "users w") auto
  moreover have "map uses_left (users (after (handle_photo cfg e m w))) = map uses_left (users w)"
    unfolding t by (induction "users w") auto
  ultimately show ?thesis using t handle_photo_denied(1)[OF assms] by simp
qed

theorem denied_event_effects_witness:
  "\<not> select_fails smooth_run
   \<and> uses_left_or_zero (table_at_gate smooth_run photo_of_7 (world_of_7 0)) (from_id photo_of_7) \<le> 0
   \<and> calls (handle_photo sample_config smooth_run photo_of_7 (world_of_7 0))
       = [answer photo_of_7 LimitExhausted False]
   \<and> users (after (handle_photo sample_config smooth_run photo_of_7 (world_of_7 0)))
       = [\<lparr>user_id = 7, uses_left = 0, last_active = ''t1''\<rparr>]
   \<and> map uses_left (users (after (handle_photo sample_config smooth_run photo_of_7 (world_of_7 0))))
       = [0]"
  using denied_event_effects [of smooth_run photo_of_7 "world_of_7 0" sample_config]
  by (simp add: sample_defs store_defs)

section \<open>The upsert\<close>

text \<open>
  C8. \<^verbatim>\<open>ensure_user\<close>, when its statement runs, is an upsert that never resets the
  quota. Called twice on a new id it leaves the table with exactly one more row, that id's,
  with \<^verbatim>\<open>uses_left\<close> at the free limit 10 (and the time of the second call); every call
  sets the id's \<^verbatim>\<open>last_active\<close> to the time of the call; and for every user a call,
  failed or not, leaves an existing \<^verbatim>\<open>uses_left\<close> as it is: so a third call after a
  decrement reads 9, not 10.
\<close>

theorem ensure_user_idempotent_upsert:
  "FREE_USES_LIMIT = 10
   \<and> (select_uses_left db uid = None \<longrightarrow>
        ensure_user False t2 uid (ensure_user False t1 uid db)
          = db @ [\<lparr>user_id = uid, uses_left = FREE_USES_LIMIT, last_active = t2\<rparr>]
        \<and> rowcount (ensure_user False t2 uid (ensure_user False t1 uid db)) uid = 1
        \<and> select_uses_left
            (ensure_user False t3 uid
               (decrement_use uid (ensure_user False t2 uid (ensure_user False t1 uid db)))) uid
          = Some (FREE_USES_LIMIT - 1))
   \<and> map_option last_active (fetch_user (ensure_user False t uid db) uid) = Some t
   \<and> (select_uses_left db uid' = Some u \<longrightarrow>
        select_uses_left (ensure_user fails t uid db) uid' = Some u)"
proof (intro conjI impI)
  show "FREE_USES_LIMIT = 10" by (simp add: FREE_USES_LIMIT_def)
next
  assume n: "select_uses_left db uid = None"
  show tw: "ensure_user False t2 uid (ensure_user False t1 uid db)
          = db @ [\<lparr>user_id = uid, uses_left = FREE_USES_LIMIT, last_active = t2\<rparr>]"
    by (rule ensure_twice_new[OF n])
  have f: "filter (\<lambda>r. user_id r = uid) db = []"
    using n by (simp add: no_row_filter select_uses_left_def)
  show "rowcount (ensure_user False t2 uid (ensure_user False t1 uid db)) uid = 1"
    unfolding tw by (simp add: rowcount_def f)
  show "select_uses_left
            (ensure_user False t3 uid
               (decrement_use uid (ensure_user False t2 uid (ensure_user False t1 uid db)))) uid
          = Some (FREE_USES_LIMIT - 1)"
    by (simp add: select_ensure select_decrement n)
next
  show "map_option last_active (fetch_user (ensure_user False t uid db) uid) = Some t"
    by (rule last_active_ensure)
next
  assume "select_uses_left db uid' = Some u"
  then show "select_uses_left (ensure_user fails t uid db) uid' = Some u"
    by (auto simp: select_ensure)
qed

theorem ensure_user_idempotent_upsert_witness:
  "select_uses_left (users (world_of_7 4)) 8 = None
   \<and> select_uses_left (users (world_of_7 4)) 7 = Some 4
   \<and> ensure_user False ''t2'' 8 (ensure_user False ''t1'' 8 (users (world_of_7 4)))
       = users (world_of_7 4)
           @ [\<lparr>user_id = 8, uses_left = FREE_USES_LIMIT, last_active = ''t2''\<rparr>]
   \<and> rowcount (ensure_user False ''t2'' 8 (ensure_user False ''t1'' 8 (users (world_of_7 4)))) 8 = 1
   \<and> select_uses_left
        (ensure_user False ''t3'' 8
          (decrement_use 8
            (ensure_user False ''t2'' 8 (ensure_user False ''t1'' 8 (users (world_of_7 4)))))) 8
       = Some (FREE_USES_LIMIT - 1)
   \<and> map_option last_active (fetch_user (ensure_user False ''t4'' 8 (users (world_of_7 4))) 8)
       = Some ''t4''
   \<and> select_uses_left (ensure_user True ''t4'' 8 (users (world_of_7 4))) 7 = Some 4"
proof -
  have new: "select_uses_left (users (world_of_7 4)) 8 = None"
    by (simp add: world_of_7_def select_uses_left_def fetch_user_def)
  have old: "select_uses_left (users (world_of_7 4)) 7 = Some 4"
    by (simp add: world_of_7_def select_uses_left_def fetch_user_def)
  show ?thesis
    using new old
      ensure_user_idempotent_upsert [of "users (world_of_7 4)" 8 "''t2''" "''t1''" "''t3''"
        "''t4''" 7 4 True]
    by blast
qed

section \<open>The sentinel of a subscription\<close>

text \<open>
  C10. \<^verbatim>\<open>/activate\<close> by the administrator, with an id that fits a 64-bit column and
  an \<^verbatim>\<open>UPDATE\<close> that runs, sets the \<^verbatim>\<open>uses_left\<close> of an existing account to 999,
  whatever it was. From there the counter behaves as any other: after
  \<open>n \<le> 999\<close> successful analyses of that user it is \<open>999 - n\<close>, and after 999 of them
  the next photo event of the user is denied with the upgrade message and no decrement.
\<close>

theorem sentinel_counts_down:
  assumes "from_id am = ADMIN_ID cfg" and "msg_text am = Some t"
    and "str_split lib t = [c, a]" and "to_int lib a = Some uid" and "sqlite_int uid"
    and "\<not> db_fails ce"
    and "select_uses_left (users w) uid = Some u"
    and "\<forall>ev\<in>set evs. from_id (fst ev) = uid \<and> photo_succeeds (snd ev)"
    and "length evs \<le> 999"
  shows "select_uses_left (users (after (cmd_activate_user lib cfg ce am w))) uid = Some 999
     \<and> select_uses_left (users (run_photos cfg evs (after (cmd_activate_user lib cfg ce am w)))) uid
         = Some (999 - int (length evs))
     \<and> (length evs = 999 \<and> from_id m = uid \<and> \<not> select_fails e \<longrightarrow>
          calls (handle_photo cfg e m
                   (run_photos cfg evs (after (cmd_activate_user lib cfg ce am w))))
            = [answer m LimitExhausted (limit_reply_fails e)]
          \<and> users (after (handle_photo cfg e m
                   (run_photos cfg evs (after (cmd_activate_user lib cfg ce am w)))))
            = table_at_gate e m (run_photos cfg evs (after (cmd_activate_user lib cfg ce am w))))"
proof -
  let ?w1 = "after (cmd_activate_user lib cfg ce am w)"
  let ?w2 = "run_photos cfg evs ?w1"
  have a: "select_uses_left (users ?w1) uid = Some 999"
    using assms(7) by (simp add: activate_users[OF assms(1-6)] select_activate)
  have n: "gated_successes cfg uid evs ?w1 = length evs"
    using gated_successes_all[OF a assms(8)] assms(9) by simp
  have r: "select_uses_left (users ?w2) uid = Some (999 - int (length evs))"
    using run_photos_select[OF a, of cfg evs] n by simp
  have d: "calls (handle_photo cfg e m ?w2) = [answer m LimitExhausted (limit_reply_fails e)]
       \<and> users (after (handle_photo cfg e m ?w2)) = table_at_gate e m ?w2"
    if h: "length evs = 999 \<and> from_id m = uid \<and> \<not> select_fails e"
  proof -
    have "select_uses_left (users ?w2) (from_id m) = Some 0" using r h by simp
    then have "uses_left_or_zero (table_at_gate e m ?w2) (from_id m) \<le> 0"
      using select_at_gate[of ?w2 "from_id m" 0 e m] by (simp add: uses_left_or_zero_def)
    then show ?thesis using handle_photo_denied[of e m ?w2 cfg] h by simp
  qed
  show ?thesis using a r d by blast
qed

theorem sentinel_counts_down_witness:
  "from_id activate_7 = ADMIN_ID sample_config \<and> msg_text activate_7 = Some ''/activate 7''
   \<and> str_split sample_lib ''/activate 7'' = [''/activate'', ''7'']
   \<and> to_int sample_lib ''7'' = Some 7 \<and> sqlite_int 7 \<and> \<not> db_fails calm
   \<and> select_uses_left (users (world_of_7 3)) 7 = Some 3
   \<and> list_all (\<lambda>ev. from_id (fst ev) = 7 \<and> photo_succeeds (snd ev))
        (replicate 999 (photo_of_7, smooth_run))
   \<and> length (replicate 999 (photo_of_7, smooth_run)) \<le> 999
   \<and> select_uses_left (users (after (cmd_activate_user sample_lib sample_config calm activate_7 (world_of_7 3)))) 7
       = Some 999
   \<and> select_uses_left (users (run_photos sample_config (replicate 999 (photo_of_7, smooth_run))
         (after (cmd_activate_user sample_lib sample_config calm activate_7 (world_of_7 3))))) 7
       = Some 0
   \<and> calls (handle_photo sample_config smooth_run photo_of_7
        (run_photos sample_config (replicate 999 (photo_of_7, smooth_run))
          (after (cmd_activate_user sample_lib sample_config calm activate_7 (world_of_7 3)))))
       = [answer photo_of_7 LimitExhausted False]"
proof -
  have good: "\<forall>ev\<in>set (replicate 999 (photo_of_7, smooth_run)).
      from_id (fst ev) = 7 \<and> photo_succeeds (snd ev)"
    by (simp add: sample_defs photo_succeeds_def analysis_delivered_def)
  have adm: "from_id activate_7 = ADMIN_ID sample_config"
    "msg_text activate_7 = Some ''/activate 7''"
    "str_split sample_lib ''/activate 7'' = [''/activate'', ''7'']"
    "to_int sample_lib ''7'' = Some 7" "sqlite_int 7" "\<not> db_fails calm"
    "select_uses_left (users (world_of_7 3)) 7 = Some 3"
    by (simp_all add: sample_defs sample_lib_def activate_7_def calm_def select_uses_left_def
          fetch_user_def sqlite_int_def)
  have len: "length (replicate 999 (photo_of_7, smooth_run)) \<le> 999" by simp
  have quiet: "from_id photo_of_7 = 7" "\<not> select_fails smooth_run" "\<not> limit_reply_fails smooth_run"
    by (simp_all add: sample_defs)
  show ?thesis
    using sentinel_counts_down [OF adm good len, of photo_of_7 smooth_run] good adm quiet
    by (simp add: list_all_iff)
qed

section \<open>Dialog state\<close>

lemma handle_photo_returns_idle:
  "raised (handle_photo cfg e m w) = None \<Longrightarrow> state_of m (after (handle_photo cfg e m w)) = Idle"
  by (auto simp: handle_photo_def Let_def state_of_def clear_state_def
        split: if_splits prod.splits)

lemma handle_photo_finally_idle:
  "\<not> select_fails e \<Longrightarrow> \<not> limit_reply_fails e \<Longrightarrow> \<not> processing_reply_fails e \<Longrightarrow>
   state_of m (after (handle_photo cfg e m w)) = Idle"
  by (auto simp: handle_photo_def Let_def state_of_def clear_state_def
        split: if_splits prod.splits)

lemma process_broadcast_returns_idle:
  "raised (process_broadcast cfg e m w) = None \<Longrightarrow>
   state_of m (after (process_broadcast cfg e m w)) = Idle"
  by (auto simp: process_broadcast_def broadcast_empty_def state_of_def clear_state_def
        split: if_splits prod.splits option.splits)

lemma process_broadcast_finally_idle:
  "\<not> empty_reply_fails e \<Longrightarrow> state_of m (after (process_broadcast cfg e m w)) = Idle"
  by (auto simp: process_broadcast_def broadcast_empty_def state_of_def clear_state_def
        split: if_splits prod.splits option.splits)

text \<open>
  C3. The \<^verbatim>\<open>finally\<close> blocks clear the dialog state on every path through the
  \<^verbatim>\<open>try\<close> (the four lemmas above), but the statements before the \<^verbatim>\<open>try\<close> are not
  covered by them, and an exception there leaves the state as it was. Four such runs:
  the denial reply of the quota gate raises (user 7 has no uses left and is in
  \<open>AwaitPhoto\<close>); the "processing" reply raises; the \<^verbatim>\<open>SELECT\<close> of the gate raises;
  the reply to an empty broadcast text raises (the administrator is in
  \<open>AwaitBroadcast\<close>). After each of them the sender is still in the state the event
  found.
\<close>

theorem state_left_set_before_try:
  "state_of photo_of_7 (world_of_7 0) = AwaitPhoto
   \<and> calls (handle_photo sample_config denial_reply_lost photo_of_7 (world_of_7 0))
       = [Send (UserChat 7) LimitExhausted False]
   \<and> raised (handle_photo sample_config denial_reply_lost photo_of_7 (world_of_7 0))
       = Some TransportError
   \<and> state_of photo_of_7
        (after (handle_photo sample_config denial_reply_lost photo_of_7 (world_of_7 0)))
       = AwaitPhoto
   \<and> raised (handle_photo sample_config processing_reply_lost photo_of_7 (world_of_7 3))
       = Some TransportError
   \<and> state_of photo_of_7
        (after (handle_photo sample_config processing_reply_lost photo_of_7 (world_of_7 3)))
       = AwaitPhoto
   \<and> raised (handle_photo sample_config select_down photo_of_7 (world_of_7 3))
       = Some SqliteError
   \<and> state_of photo_of_7
        (after (handle_photo sample_config select_down photo_of_7 (world_of_7 3)))
       = AwaitPhoto
   \<and> state_of sticker_of_admin three_users = AwaitBroadcast
   \<and> calls (process_broadcast sample_config empty_reply_lost sticker_of_admin three_users)
       = [Send (UserChat 1) BroadcastEmpty False]
   \<and> raised (process_broadcast sample_config empty_reply_lost sticker_of_admin three_users)
       = Some TransportError
   \<and> state_of sticker_of_admin
        (after (process_broadcast sample_config empty_reply_lost sticker_of_admin three_users))
       = AwaitBroadcast"
  by (simp add: sample_defs denial_reply_lost_def processing_reply_lost_def select_down_def
        empty_reply_lost_def one_blocked_def sticker_of_admin_def three_users_def store_defs
        handle_photo_def Let_def state_of_def answer_def process_broadcast_def
        broadcast_empty_def)

section \<open>Broadcast\<close>

lemma send_all_counts:
  "send_all fails txt us (s, f, cs) =
     (s + length (filter (\<lambda>u. \<not> fails u) us), f + length (filter fails us),
      cs @ map (\<lambda>u. Send (UserChat u) (BroadcastText txt) (\<not> fails u)) us)"
  by (induction us arbitrary: s f cs) auto

text \<open>
  C4. A broadcast with a non-empty text whose listing query runs sends the text once to
  every user id of the table as it was at the start, in table order, whether or not
  earlier sends raised; with \<open>K\<close> rows and \<open>F\<close> recipients whose send raises, the report
  to the administrator is \<open>BroadcastDone (K - F) F\<close>, and \<open>(K - F) + F = K\<close>. Writes
  made to the table by others during the run show in the table afterwards
  and not in the sends or the report.
\<close>

theorem broadcast_accounting:
  assumes "msg_text m = Some txt" and "txt \<noteq> []" and "\<not> listing_fails e"
  shows "calls (process_broadcast cfg e m w) =
           map (\<lambda>u. Send (UserChat u) (BroadcastText txt) (\<not> deliver_fails e u))
             (map user_id (users w))
           @ broadcast_note cfg e txt
           @ [answer m (BroadcastDone
                (length (users w) - length (filter (deliver_fails e) (map user_id (users w))))
                (length (filter (deliver_fails e) (map user_id (users w)))))
              (report_fails e)]
     \<and> (length (users w) - length (filter (deliver_fails e) (map user_id (users w))))
         + length (filter (deliver_fails e) (map user_id (users w))) = length (users w)
     \<and> users (after (process_broadcast cfg e m w)) = concurrent_writes e (users w)"
proof -
  define us where "us = map user_id (users w)"
  define F where "F = length (filter (deliver_fails e) us)"
  have len: "length us = length (users w)" by (simp add: us_def)
  have le: "F \<le> length us" by (simp add: F_def)
  have k: "length (filter (\<lambda>u. \<not> deliver_fails e u) us) = length us - F"
    using sum_length_filter_compl[of "deliver_fails e" us] by (simp add: F_def)
  have sa: "send_all (deliver_fails e) txt us (0, 0, [])
              = (length us - F, F,
                 map (\<lambda>u. Send (UserChat u) (BroadcastText txt) (\<not> deliver_fails e u)) us)"
    by (simp add: send_all_counts k F_def)
  have r: "calls (process_broadcast cfg e m w) =
             map (\<lambda>u. Send (UserChat u) (BroadcastText txt) (\<not> deliver_fails e u)) us
             @ broadcast_note cfg e txt
             @ [answer m (BroadcastDone (length us - F) F) (report_fails e)]"
    using assms by (simp add: process_broadcast_def sa[unfolded us_def] us_def)
  have u: "users (after (process_broadcast cfg e m w)) = concurrent_writes e (users w)"
    using assms by (simp add: process_broadcast_def clear_state_def split: prod.splits)
  show ?thesis
    using r u le unfolding F_def len unfolding us_def by simp
qed

theorem broadcast_accounting_witness:
  "msg_text news_text = Some ''news'' \<and> ''news'' \<noteq> [] \<and> \<not> listing_fails one_blocked
   \<and> calls (process_broadcast sample_config one_blocked news_text three_users) =
       [Send (UserChat 1) (BroadcastText ''news'') True,
        Send (UserChat 7) (BroadcastText ''news'') False,
        Send (UserChat 8) (BroadcastText ''news'') True,
        Send (Channel ''@news'') (BroadcastChannelNote ''news'') False,
        Send (UserChat 1) (BroadcastDone 2 1) True]
   \<and> length (users (after (process_broadcast sample_config one_blocked news_text three_users))) = 4"
proof -
  have h: "msg_text news_text = Some ''news''" "''news'' \<noteq> []" "\<not> listing_fails one_blocked"
    by (simp_all add: news_text_def one_blocked_def)
  show ?thesis
    using h broadcast_accounting [OF h, of sample_config three_users]
    by (simp add: three_users_def one_blocked_def news_text_def sample_config_def
          broadcast_note_def answer_def)
qed

section \<open>Statistics\<close>

text \<open>
  C5. The count that \<^verbatim>\<open>get_user_stats\<close> returns as \<^verbatim>\<open>paid_users\<close>, and that
  \<^verbatim>\<open>/stats\<close> and \<^verbatim>\<open>/admin\<close> show as the number of subscribers, is taken with
  \<^verbatim>\<open>uses_left < FREE_USES_LIMIT\<close>. An account that \<^verbatim>\<open>/activate\<close> has set to 999 is
  not below 10, so it is not counted. Here user 7 is activated and is the table's only
  row: the table holds the sentinel and the third component is 0.
\<close>

theorem activated_account_not_counted:
  "select_uses_left (activate_row 7 (users (world_of_7 10))) 7 = Some 999
   \<and> get_user_stats False (activate_row 7 (users (world_of_7 10))) = (1, Some 999, 0)"
  by (simp add: world_of_7_def activate_row_def select_uses_left_def fetch_user_def
        get_user_stats_def FREE_USES_LIMIT_def)

section \<open>Storage errors\<close>















section \<open>Authorization\<close>

text \<open>
  C9. When the sender is not the administrator, each of \<^verbatim>\<open>/stats\<close>, \<^verbatim>\<open>/users\<close>,
  \<^verbatim>\<open>/find\<close>, \<^verbatim>\<open>/activate\<close>, \<^verbatim>\<open>/broadcast\<close> and \<^verbatim>\<open>/admin\<close> does one thing only:
  it sends its fixed denial text to the sender's chat (\<open>NoAccess\<close> for \<^verbatim>\<open>/stats\<close>,
  \<^verbatim>\<open>/users\<close>, \<^verbatim>\<open>/activate\<close>; \<open>NoAccessCommand\<close> for the other three). The table
  and every dialog state are as before, nothing else is sent, and the result does not
  depend on the table, the text of the message or the storage.
\<close>

theorem authorization_gate:
  assumes "from_id m \<noteq> ADMIN_ID cfg"
  shows "cmd_stats cfg e m w = reply e m w NoAccess
     \<and> cmd_list_users cfg e m w = reply e m w NoAccess
     \<and> cmd_find_user lib cfg e m w = reply e m w NoAccessCommand
     \<and> cmd_activate_user lib cfg e m w = reply e m w NoAccess
     \<and> cmd_broadcast cfg e m w = reply e m w NoAccessCommand
     \<and> cmd_admin cfg e m w = reply e m w NoAccessCommand
     \<and> after (reply e m w x) = w
     \<and> calls (reply e m w x) = [answer m x (reply_fails e)]"
  using assms
  by (simp add: cmd_stats_def cmd_list_users_def cmd_find_user_def cmd_activate_user_def
        cmd_broadcast_def cmd_admin_def reply_def)

theorem authorization_gate_witness:
  "from_id stats_of_7 \<noteq> ADMIN_ID sample_config
   \<and> cmd_stats sample_config calm stats_of_7 three_users = reply calm stats_of_7 three_users NoAccess
   \<and> cmd_broadcast sample_config calm stats_of_7 three_users
       = reply calm stats_of_7 three_users NoAccessCommand
   \<and> cmd_activate_user sample_lib sample_config calm stats_of_7 three_users
       = reply calm stats_of_7 three_users NoAccess
   \<and> after (reply calm stats_of_7 three_users NoAccess) = three_users
   \<and> calls (reply calm stats_of_7 three_users NoAccess) = [Send (UserChat 7) NoAccess True]"
proof -
  have h: "from_id stats_of_7 \<noteq> ADMIN_ID sample_config"
    by (simp add: stats_of_7_def sample_config_def)
  have c: "answer stats_of_7 NoAccess (reply_fails calm) = Send (UserChat 7) NoAccess True"
    by (simp add: answer_def stats_of_7_def calm_def)
  show ?thesis
    using h c authorization_gate [OF h, of calm three_users sample_lib NoAccess]
    by simp
qed

end
